theory Spec2Isabelle
  imports Complex_Main "HOL-Library.Char_ord" "HOL-Library.List_Lexorder"
begin

section \<open>Python values and dictionaries\<close>

text \<open>
  A filesystem path is the list of its components below the root (all paths of
  \<^verbatim>\<open>pp/config.py\<close> are absolute); \<^verbatim>\<open>p / "name"\<close> appends a component and
  \<^verbatim>\<open>str(p)\<close> joins them.
\<close>

datatype path = Path "string list"

fun path_div :: "path \<Rightarrow> string \<Rightarrow> path" where
  "path_div (Path cs) c = Path (cs @ [c])"

fun path_str :: "path \<Rightarrow> string" where
  "path_str (Path cs) = (if cs = [] then ''/'' else concat (map (\<lambda>c. ''/'' @ c) cs))"

text \<open>
  The Python values that occur: the scalars of a YAML or JSON document, lists,
  string-keyed dictionaries (in insertion order), \<^verbatim>\<open>pathlib.Path\<close> objects, and
  \<open>VObj tag\<close> for an object of any other class (a set, a complex number, an array).
  Floats are idealised as reals.
\<close>

datatype pyval =
    VNone
  | VBool bool
  | VInt int
  | VFloat real
  | VStr string
  | VList "pyval list"
  | VDict "(string \<times> pyval) list"
  | VPath path
  | VObj string

datatype py_error =
    TypeError string
  | ValueError string
  | OverflowError string
  | ZeroDivisionError
  | FileNotFoundError
  | PermissionError
  | YAMLError string
  | ProviderError string

text \<open>
  Truth value of an object in a condition (\<^verbatim>\<open>if x:\<close>, \<^verbatim>\<open>x or y\<close>): \<^verbatim>\<open>None\<close>,
  \<^verbatim>\<open>False\<close>, zero, the empty string and empty containers are false; a path, like
  any object without \<^verbatim>\<open>__bool__\<close> and \<^verbatim>\<open>__len__\<close>, is true.
\<close>

fun truthy :: "pyval \<Rightarrow> bool" where
  "truthy VNone = False"
| "truthy (VBool b) = b"
| "truthy (VInt i) = (i \<noteq> 0)"
| "truthy (VFloat x) = (x \<noteq> 0)"
| "truthy (VStr s) = (s \<noteq> [])"
| "truthy (VList xs) = (xs \<noteq> [])"
| "truthy (VDict kvs) = (kvs \<noteq> [])"
| "truthy (VPath p) = True"
| "truthy (VObj t) = True"

text \<open>
  A \<^verbatim>\<open>dict\<close> is an association list in insertion order. \<^verbatim>\<open>d[k] = v\<close> replaces the
  value of a key that is present, keeping its position, and appends a new key at the
  end; \<^verbatim>\<open>d.update(e)\<close> does so for every item of \<^verbatim>\<open>e\<close> in order.
\<close>

type_synonym 'v dict = "(string \<times> 'v) list"

fun dict_set :: "string \<Rightarrow> 'v \<Rightarrow> 'v dict \<Rightarrow> 'v dict" where
  "dict_set k v [] = [(k, v)]"
| "dict_set k v ((k', v') # d) = (if k' = k then (k, v) # d else (k', v') # dict_set k v d)"

fun dict_update :: "'v dict \<Rightarrow> 'v dict \<Rightarrow> 'v dict" where
  "dict_update d [] = d"
| "dict_update d ((k, v) # e) = dict_update (dict_set k v d) e"

definition dict_get :: "'v dict \<Rightarrow> string \<Rightarrow> 'v option" where
  "dict_get d k = map_of d k"

definition dict_keys :: "'v dict \<Rightarrow> string list" where
  "dict_keys d = map fst d"

section \<open>Route info (\<^verbatim>\<open>gdsfactory/route_info.py\<close>)\<close>

text \<open>
  \<^verbatim>\<open>route_info(cs_type, length, length_eff=None, taper=False, **kwargs)\<close>: the body, with
  the parameters already bound. \<open>length_eff = VNone\<close> is the omitted argument.
\<close>

definition route_info :: "string \<Rightarrow> pyval \<Rightarrow> pyval \<Rightarrow> pyval \<Rightarrow> pyval dict \<Rightarrow> pyval dict" where
  "route_info cs_type length' length_eff taper kwargs =
     (let length_eff = (if length_eff = VNone then length' else length_eff);
          d = dict_set ''weight'' length_eff
                (dict_set (cs_type @ ''_length'') length_eff
                  (dict_set ''length'' length_eff
                    (dict_set ''type'' (VStr cs_type) [])));
          d = (if truthy taper then dict_set (cs_type @ ''_taper_length'') length' d else d)
      in dict_update d kwargs)"





section \<open>Layered configuration (\<^verbatim>\<open>pp/config.py\<close>)\<close>

text \<open>
  A configuration as \<^verbatim>\<open>OmegaConf\<close> holds it: a tree whose inner nodes are
  string-keyed mappings (\<^verbatim>\<open>DictConfig\<close>) and whose leaves are YAML scalars.
  List-valued nodes are not modelled.
\<close>

datatype scalar = SNone | SBool bool | SInt int | SFloat real | SStr string

datatype cfg = Leaf scalar | Node "(string \<times> cfg) list"

fun scalar_truthy :: "scalar \<Rightarrow> bool" where
  "scalar_truthy SNone = False"
| "scalar_truthy (SBool b) = b"
| "scalar_truthy (SInt i) = (i \<noteq> 0)"
| "scalar_truthy (SFloat x) = (x \<noteq> 0)"
| "scalar_truthy (SStr s) = (s \<noteq> [])"

text \<open>A \<^verbatim>\<open>DictConfig\<close> has a length, so an empty one is false in a condition.\<close>

fun cfg_truthy :: "cfg \<Rightarrow> bool" where
  "cfg_truthy (Leaf s) = scalar_truthy s"
| "cfg_truthy (Node kvs) = (kvs \<noteq> [])"

text \<open>
  \<^verbatim>\<open>TECH.get(key)\<close> and the attribute access \<^verbatim>\<open>TECH.key\<close>: the value of the key, and
  \<^verbatim>\<open>None\<close> for a key that is absent (for the attribute access this is the behaviour
  of OmegaConf 2.0, which the module was written for and relies on in
  \<^verbatim>\<open>TECH.custom_components\<close> and \<^verbatim>\<open>TECH.gdslib\<close>).
\<close>

definition cfg_get :: "cfg dict \<Rightarrow> string \<Rightarrow> cfg" where
  "cfg_get c k = (case dict_get c k of None \<Rightarrow> Leaf SNone | Some v \<Rightarrow> v)"

text \<open>The value at a path of keys, when every key on the way is present.\<close>

primrec lookup_path :: "cfg \<Rightarrow> string list \<Rightarrow> cfg option" where
  "lookup_path c [] = Some c"
| "lookup_path c (k # ks) =
     (case c of
        Leaf s \<Rightarrow> None
      | Node kvs \<Rightarrow> (case map_of kvs k of None \<Rightarrow> None | Some c' \<Rightarrow> lookup_path c' ks))"

text \<open>
  \<^verbatim>\<open>OmegaConf.merge(a, b)\<close>, a library function: for every key of \<open>b\<close> in order, two
  mappings under the key are merged key by key, and in every other case the value of
  \<open>b\<close> replaces what \<open>a\<close> had (or is added at the end).
\<close>

fun merge_cfg :: "cfg \<Rightarrow> cfg \<Rightarrow> cfg"
  and merge_items :: "cfg dict \<Rightarrow> cfg dict \<Rightarrow> cfg dict" where
  "merge_cfg (Node xs) (Node ys) = Node (merge_items xs ys)"
| "merge_cfg (Leaf a) (Node ys) = Node ys"
| "merge_cfg c (Leaf b) = Leaf b"
| "merge_items xs [] = xs"
| "merge_items xs ((k, y) # ys) =
     merge_items (dict_set k (case map_of xs k of None \<Rightarrow> y | Some x \<Rightarrow> merge_cfg x y) xs) ys"

text \<open>
  A configuration file: absent, present but not readable, or readable with the result
  of parsing it (\<^verbatim>\<open>OmegaConf.load\<close> raises on a malformed file).
\<close>

datatype config_file = Absent | Unreadable | Readable "py_error + cfg dict"

definition OmegaConf_load :: "config_file \<Rightarrow> py_error + cfg dict" where
  "OmegaConf_load f =
     (case f of Absent \<Rightarrow> Inl FileNotFoundError | Unreadable \<Rightarrow> Inl PermissionError
      | Readable r \<Rightarrow> r)"

text \<open>\<^verbatim>\<open>os.access(f, os.R_OK) and f.exists()\<close>\<close>

definition readable_and_exists :: "config_file \<Rightarrow> bool" where
  "readable_and_exists f = (case f of Readable r \<Rightarrow> True | _ \<Rightarrow> False)"

text \<open>Lines 46 to 55: the default is loaded, then the two optional layers are merged.\<close>

definition merge_layer :: "cfg dict \<Rightarrow> config_file \<Rightarrow> py_error + cfg dict" where
  "merge_layer TECH f =
     (if readable_and_exists f
      then (case OmegaConf_load f of Inl e \<Rightarrow> Inl e | Inr layer \<Rightarrow> Inr (merge_items TECH layer))
      else Inr TECH)"

definition load_TECH :: "config_file \<Rightarrow> config_file \<Rightarrow> config_file \<Rightarrow> py_error + cfg dict" where
  "load_TECH default_config home_config cwd_config =
     (case OmegaConf_load default_config of
        Inl e \<Rightarrow> Inl e
      | Inr TECH \<Rightarrow>
          (case merge_layer TECH home_config of
             Inl e \<Rightarrow> Inl e
           | Inr TECH \<Rightarrow> merge_layer TECH cwd_config))"

subsection \<open>Provenance (lines 58 to 73)\<close>

definition version :: string where
  "version = ''2.4.9''"

text \<open>
  What \<^verbatim>\<open>Repo(path, search_parent_directories=True).head.object.hexsha\<close> does: it
  yields a hash, raises \<^verbatim>\<open>InvalidGitRepositoryError\<close>, or raises another exception
  (\<^verbatim>\<open>NoSuchPathError\<close>, \<^verbatim>\<open>ValueError\<close> for a repository without commits, ...).
\<close>

datatype git_result = Hexsha string | InvalidGitRepositoryError | GitError string

text \<open>\<^verbatim>\<open>TECH.info.key = v\<close>: the assignment in the mapping under \<^verbatim>\<open>info\<close>.\<close>

definition set_info :: "string \<Rightarrow> scalar \<Rightarrow> cfg dict \<Rightarrow> cfg dict" where
  "set_info k v TECH =
     (case cfg_get TECH ''info'' of
        Node kvs \<Rightarrow> dict_set ''info'' (Node (dict_set k (Leaf v) kvs)) TECH
      | Leaf s \<Rightarrow> TECH)"

text \<open>
  The result is the configuration as the statements leave it and the exception that
  escapes, if any. \<open>git_importable\<close> is false when \<^verbatim>\<open>from git import ...\<close> raises
  \<^verbatim>\<open>ImportError\<close>.
\<close>

definition annotate :: "bool \<Rightarrow> git_result \<Rightarrow> git_result \<Rightarrow> cfg dict \<Rightarrow> cfg dict \<times> py_error option" where
  "annotate git_importable repo_hash cwd_hash TECH =
     (let TECH = dict_set ''info'' (Node []) TECH;
          TECH = set_info ''version'' (SStr version) TECH
      in if \<not> git_importable then (TECH, None)
         else (case repo_hash of
                 InvalidGitRepositoryError \<Rightarrow> (TECH, None)
               | GitError e \<Rightarrow> (TECH, Some (ProviderError e))
               | Hexsha h \<Rightarrow>
                   (let TECH = set_info ''git_hash'' (SStr h) TECH
                    in (case cwd_hash of
                          InvalidGitRepositoryError \<Rightarrow> (TECH, None)
                        | GitError e \<Rightarrow> (TECH, Some (ProviderError e))
                        | Hexsha h' \<Rightarrow>
                            (dict_set ''git_hash_cwd'' (Leaf (SStr h')) TECH, None)))))"

subsection \<open>The path table \<^verbatim>\<open>CONFIG\<close> (lines 100 to 104)\<close>

text \<open>An entry of \<^verbatim>\<open>CONFIG\<close> is a path or a value taken from \<^verbatim>\<open>TECH\<close>.\<close>

datatype cval = CPath path | CCfg cfg


text \<open>\<^verbatim>\<open>x / "name"\<close> is defined for a path only; for a string or a mapping it raises.\<close>

fun cval_div :: "cval \<Rightarrow> string \<Rightarrow> py_error + cval" where
  "cval_div (CPath p) c = Inr (CPath (path_div p c))"
| "cval_div (CCfg v) c = Inl (TypeError ''unsupported operand type(s) for /'')"

definition CONFIG_gdslib :: "cfg dict \<Rightarrow> path \<Rightarrow> path \<Rightarrow> cval dict \<Rightarrow> py_error + cval dict" where
  "CONFIG_gdslib TECH repo_path dirpath_test CONFIG =
     (let CONFIG = dict_set ''custom_components'' (CCfg (cfg_get TECH ''custom_components'')) CONFIG;
          gdslib = (if cfg_truthy (cfg_get TECH ''gdslib'') then CCfg (cfg_get TECH ''gdslib'')
                    else CPath (path_div repo_path ''gdslib''));
          CONFIG = dict_set ''gdslib'' gdslib CONFIG
      in case cval_div gdslib ''sp'' of
           Inl e \<Rightarrow> Inl e
         | Inr sp \<Rightarrow>
             (let CONFIG = dict_set ''sp'' sp CONFIG
              in case cval_div gdslib ''gds'' of
                   Inl e \<Rightarrow> Inl e
                 | Inr gds \<Rightarrow>
                     Inr (dict_set ''gdslib_test'' (CPath dirpath_test)
                           (dict_set ''gds'' gds CONFIG))))"

subsection \<open>\<^verbatim>\<open>print_config\<close> (lines 135 to 146)\<close>



subsection \<open>Derived constants (lines 184 to 186)\<close>




subsection \<open>Precedence of the layers\<close>

text \<open>
  Vocabulary for the precedence of the layers. A path is cut by a configuration that
  holds a scalar at a proper prefix of it: below a scalar there are no keys.
\<close>

primrec cut_by :: "cfg \<Rightarrow> string list \<Rightarrow> bool" where
  "cut_by c [] = False"
| "cut_by c (k # ks) =
     (case c of
        Leaf s \<Rightarrow> True
      | Node kvs \<Rightarrow> (case map_of kvs k of None \<Rightarrow> False | Some c' \<Rightarrow> cut_by c' ks))"

text \<open>Every mapping of a well-formed configuration has distinct keys, as a \<^verbatim>\<open>dict\<close> has.\<close>

fun wf_cfg :: "cfg \<Rightarrow> bool" where
  "wf_cfg (Leaf s) = True"
| "wf_cfg (Node kvs) = (distinct (map fst kvs) \<and> (\<forall>c \<in> set (map snd kvs). wf_cfg c))"

text \<open>
  What a file contributes: its mapping when it is readable and parses, and nothing
  when it is absent or unreadable. A file parses unless it is readable and malformed.
\<close>

definition layer_of :: "config_file \<Rightarrow> cfg dict" where
  "layer_of f = (case f of Readable (Inr c) \<Rightarrow> c | _ \<Rightarrow> [])"

definition parses :: "config_file \<Rightarrow> bool" where
  "parses f = (case f of Readable (Inl e) \<Rightarrow> False | _ \<Rightarrow> True)"

subsection \<open>Writing a configuration (lines 149 to 160)\<close>

text \<open>
  \<^verbatim>\<open>complex_encoder(z)\<close>. How an arbitrary object is rendered by \<^verbatim>\<open>f"{z}"\<close>
  and \<^verbatim>\<open>f"{type(z)}"\<close> is Python's business: the two renderings are parameters.
\<close>

definition complex_encoder :: "(pyval \<Rightarrow> string) \<Rightarrow> (pyval \<Rightarrow> string) \<Rightarrow> pyval \<Rightarrow> py_error + pyval" where
  "complex_encoder format type_name z =
     (case z of
        VPath p \<Rightarrow> Inr (VStr (path_str p))
      | _ \<Rightarrow> Inl (TypeError (''Object '' @ format z @ '' of type '' @ type_name z
                              @ '' is not serializable'')))"

text \<open>
  \<^verbatim>\<open>json.dump(config, f, indent=2, sort_keys=True, default=...)\<close>, a library function:
  the document that is written, or the first exception on the way. Scalars, lists and
  dictionaries are encoded natively, the items of a dictionary in the order of their
  keys; for any other object the encoder calls \<^verbatim>\<open>default\<close> and encodes what it
  returns (here always a string). The layout of the text is not modelled.
\<close>

fun collect :: "(py_error + 'a) list \<Rightarrow> py_error + 'a list" where
  "collect [] = Inr []"
| "collect (Inl e # rs) = Inl e"
| "collect (Inr a # rs) = (case collect rs of Inl e \<Rightarrow> Inl e | Inr as \<Rightarrow> Inr (a # as))"

fun json_dump :: "(pyval \<Rightarrow> py_error + pyval) \<Rightarrow> pyval \<Rightarrow> py_error + pyval" where
  "json_dump dflt (VList xs) =
     (case collect (map (json_dump dflt) xs) of Inl e \<Rightarrow> Inl e | Inr ys \<Rightarrow> Inr (VList ys))"
| "json_dump dflt (VDict kvs) =
     (case collect (map (\<lambda>kv. case json_dump dflt (snd kv) of
                                  Inl e \<Rightarrow> Inl e | Inr j \<Rightarrow> Inr (fst kv, j))
                        (sort_key fst kvs)) of
        Inl e \<Rightarrow> Inl e
      | Inr js \<Rightarrow> Inr (VDict js))"
| "json_dump dflt (VPath p) = dflt (VPath p)"
| "json_dump dflt (VObj t) = dflt (VObj t)"
| "json_dump dflt v = Inr v"


text \<open>
  \<^verbatim>\<open>write_config(config, json_out_path)\<close>: the document written to the file, which is
  taken to be writable, or the exception raised.
\<close>

definition write_config :: "(pyval \<Rightarrow> string) \<Rightarrow> (pyval \<Rightarrow> string) \<Rightarrow> pyval \<Rightarrow> py_error + pyval" where
  "write_config format type_name config = json_dump (complex_encoder format type_name) config"

text \<open>
  Vocabulary for the serializer: the objects of a structure that are neither native
  to JSON nor paths; the structure with every path replaced by its string form (and
  the items of every dictionary in key order); the exception that names an object and
  its type.
\<close>

fun unsupported :: "pyval \<Rightarrow> pyval list" where
  "unsupported (VList xs) = concat (map unsupported xs)"
| "unsupported (VDict kvs) = concat (map (\<lambda>kv. unsupported (snd kv)) kvs)"
| "unsupported (VObj t) = [VObj t]"
| "unsupported v = []"

fun paths_as_strings :: "pyval \<Rightarrow> pyval" where
  "paths_as_strings (VList xs) = VList (map paths_as_strings xs)"
| "paths_as_strings (VDict kvs) =
     VDict (map (\<lambda>kv. (fst kv, paths_as_strings (snd kv))) (sort_key fst kvs))"
| "paths_as_strings (VPath p) = VStr (path_str p)"
| "paths_as_strings v = v"

definition not_serializable :: "(pyval \<Rightarrow> string) \<Rightarrow> (pyval \<Rightarrow> string) \<Rightarrow> pyval \<Rightarrow> py_error" where
  "not_serializable format type_name z =
     TypeError (''Object '' @ format z @ '' of type '' @ type_name z @ '' is not serializable'')"

definition dumps_as :: "(pyval \<Rightarrow> string) \<Rightarrow> (pyval \<Rightarrow> string) \<Rightarrow> pyval \<Rightarrow> bool" where
  "dumps_as format type_name v \<longleftrightarrow>
     (unsupported v = [] \<longrightarrow> write_config format type_name v = Inr (paths_as_strings v))
   \<and> (unsupported v \<noteq> [] \<longrightarrow>
        (\<exists>z \<in> set (unsupported v).
           write_config format type_name v = Inl (not_serializable format type_name z)))"

section \<open>Properties of the route info\<close>

lemma map_of_dict_set: "map_of (dict_set k v d) = (map_of d)(k \<mapsto> v)"
  by (induction d) (auto simp: fun_eq_iff)

lemma map_of_dict_update: "map_of (dict_update d e) = map_of d ++ map_of (rev e)"
proof (induction e arbitrary: d)
  case Nil
  then show ?case by simp
next
  case (Cons kv e)
  obtain k v where kv: "kv = (k, v)" by (cases kv)
  show ?case
    by (simp add: kv Cons.IH map_of_dict_set map_add_def fun_eq_iff split: option.splits)
qed

lemma length_key_neq [simp]:
  "cs_type @ ''_length'' \<noteq> ''type''"
  "cs_type @ ''_length'' \<noteq> ''length''"
  "cs_type @ ''_length'' \<noteq> ''weight''"
  "''type'' \<noteq> cs_type @ ''_length''"
  "''length'' \<noteq> cs_type @ ''_length''"
  "''weight'' \<noteq> cs_type @ ''_length''"
  by (auto dest: arg_cong [where f = length])

lemma taper_key_neq [simp]:
  "cs_type @ ''_taper_length'' \<noteq> ''type''"
  "cs_type @ ''_taper_length'' \<noteq> ''length''"
  "cs_type @ ''_taper_length'' \<noteq> ''weight''"
  "cs_type @ ''_taper_length'' \<noteq> cs_type @ ''_length''"
  "''type'' \<noteq> cs_type @ ''_taper_length''"
  "''length'' \<noteq> cs_type @ ''_taper_length''"
  "''weight'' \<noteq> cs_type @ ''_taper_length''"
  "cs_type @ ''_length'' \<noteq> cs_type @ ''_taper_length''"
  by (auto dest: arg_cong [where f = length])

text \<open>
  C2. With \<^verbatim>\<open>taper\<close> false, no extra attributes and \<^verbatim>\<open>length_eff\<close> omitted, the result
  is exactly \<^verbatim>\<open>{type: t, length: L, "{t}_length": L, weight: L}\<close>, for every type
  string \<open>t\<close> and every length \<open>L\<close>; and in every call an omitted \<^verbatim>\<open>length_eff\<close> stands
  for the physical length.
\<close>

theorem route_info_straight:
  "route_info t L VNone (VBool False) [] =
     [(''type'', VStr t), (''length'', L), (t @ ''_length'', L), (''weight'', L)]
   \<and> route_info t L VNone taper kwargs = route_info t L L taper kwargs"
  by (simp add: route_info_def Let_def)

text \<open>
  C3. With an effective length \<open>E\<close> given and no extra attributes: for a taper the
  result is \<^verbatim>\<open>{type: t, length: E, "{t}_length": E, weight: E, "{t}_taper_length": L}\<close>,
  the physical length \<open>L\<close> appearing under the taper key only; when \<^verbatim>\<open>taper\<close> is false
  the result has no key \<^verbatim>\<open>"{t}_taper_length"\<close>.
\<close>

theorem route_info_taper:
  assumes "E \<noteq> VNone"
  shows "(truthy taper \<longrightarrow>
            route_info t L E taper [] =
              [(''type'', VStr t), (''length'', E), (t @ ''_length'', E), (''weight'', E),
               (t @ ''_taper_length'', L)])
       \<and> (\<not> truthy taper \<longrightarrow>
            route_info t L E taper [] =
              [(''type'', VStr t), (''length'', E), (t @ ''_length'', E), (''weight'', E)]
            \<and> dict_get (route_info t L E taper []) (t @ ''_taper_length'') = None)"
  using assms by (simp add: route_info_def Let_def dict_get_def)

theorem route_info_taper_witness:
  "VInt 8 \<noteq> VNone
   \<and> truthy (VBool True)
   \<and> route_info ''strip'' (VInt 10) (VInt 8) (VBool True) [] =
       [(''type'', VStr ''strip''), (''length'', VInt 8), (''strip_length'', VInt 8),
        (''weight'', VInt 8), (''strip_taper_length'', VInt 10)]"
  using route_info_taper [of "VInt 8" "VBool True" "''strip''" "VInt 10"] by simp

lemma dict_keys_dict_set:
  "dict_keys (dict_set k v d) = (if k \<in> set (dict_keys d) then dict_keys d else dict_keys d @ [k])"
  by (induction d) (force simp: dict_keys_def)+

lemma dict_keys_dict_update:
  "distinct (dict_keys e) \<Longrightarrow>
   dict_keys (dict_update d e) = dict_keys d @ filter (\<lambda>k. k \<notin> set (dict_keys d)) (dict_keys e)"
proof (induction e arbitrary: d)
  case Nil
  then show ?case by (simp add: dict_keys_def)
next
  case (Cons kv e)
  obtain k v where kv: "kv = (k, v)" by (cases kv)
  from Cons.prems have k: "k \<notin> set (dict_keys e)" and e: "distinct (dict_keys e)"
    by (simp_all add: kv dict_keys_def)
  have keep: "filter (\<lambda>k'. k' \<noteq> k \<and> k' \<notin> set (dict_keys d)) (dict_keys e)
            = filter (\<lambda>k'. k' \<notin> set (dict_keys d)) (dict_keys e)"
    using k by (intro filter_cong) auto
  have step: "dict_keys (dict_update d (kv # e))
      = dict_keys (dict_set k v d)
        @ filter (\<lambda>k'. k' \<notin> set (dict_keys (dict_set k v d))) (dict_keys e)"
    by (simp add: kv Cons.IH [OF e])
  have hd: "dict_keys (kv # e) = k # dict_keys e"
    by (simp add: kv dict_keys_def)
  show ?case
  proof (cases "k \<in> set (dict_keys d)")
    case True
    then show ?thesis by (simp add: step hd dict_keys_dict_set)
  next
    case False
    then show ?thesis using keep by (simp add: step hd dict_keys_dict_set)
  qed
qed

lemma map_of_rev_distinct:
  "distinct (map fst e) \<Longrightarrow> map_of (rev e) = map_of e"
  by (rule map_of_inject_set [THEN iffD2]) (simp_all add: distinct_rev rev_map [symmetric])

lemma dict_get_dict_update:
  "distinct (dict_keys e) \<Longrightarrow>
   dict_get (dict_update d e) k = (case dict_get e k of Some v \<Rightarrow> Some v | None \<Rightarrow> dict_get d k)"
  by (simp add: dict_get_def dict_keys_def map_of_dict_update map_add_def map_of_rev_distinct
      split: option.splits)

lemma route_info_base:
  "route_info t L E taper kwargs = dict_update (route_info t L E taper []) kwargs"
  by (simp add: route_info_def Let_def)

text \<open>
  C4. The extra attributes are merged last. For every key the result holds the
  extra's value when the extras have that key (whichever base key it collides with:
  \<^verbatim>\<open>type\<close>, \<^verbatim>\<open>length\<close>, \<^verbatim>\<open>weight\<close> or a type-qualified key), and the base value
  otherwise; the base keys keep their places and the new keys follow them in the
  order given. The extras are a Python dictionary, so their keys are distinct.
\<close>

theorem route_info_extras_merged_last:
  assumes "distinct (dict_keys kwargs)"
  shows "dict_get (route_info t L E taper kwargs) k =
           (case dict_get kwargs k of
              Some v \<Rightarrow> Some v
            | None \<Rightarrow> dict_get (route_info t L E taper []) k)
       \<and> dict_keys (route_info t L E taper kwargs) =
           dict_keys (route_info t L E taper [])
           @ filter (\<lambda>k. k \<notin> set (dict_keys (route_info t L E taper []))) (dict_keys kwargs)"
  using assms route_info_base [of t L E taper kwargs]
  by (simp add: dict_get_dict_update dict_keys_dict_update)

theorem route_info_extras_merged_last_witness:
  "distinct (dict_keys [(''loss'', VFloat 0.1), (''type'', VStr ''x'')])
   \<and> dict_get (route_info ''rib'' (VInt 5) VNone (VBool False)
        [(''loss'', VFloat 0.1), (''type'', VStr ''x'')]) ''type'' = Some (VStr ''x'')
   \<and> dict_keys (route_info ''rib'' (VInt 5) VNone (VBool False)
        [(''loss'', VFloat 0.1), (''type'', VStr ''x'')])
       = [''type'', ''length'', ''rib_length'', ''weight'', ''loss'']"
  using route_info_extras_merged_last
    [of "[(''loss'', VFloat 0.1), (''type'', VStr ''x'')]" "''rib''" "VInt 5" VNone
        "VBool False" "''type''"]
  by (simp add: dict_keys_def dict_get_def route_info_def Let_def)




section \<open>Properties of the configuration\<close>





lemma dict_get_dict_set: "dict_get (dict_set k v d) k' = (if k' = k then Some v else dict_get d k')"
  by (simp add: dict_get_def map_of_dict_set)

lemma dict_set_twice: "dict_set k v (dict_set k v' d) = dict_set k v d"
  by (induction d) auto

lemma set_info_fresh:
  "set_info k v (dict_set ''info'' (Node kvs) TECH) = dict_set ''info'' (Node (dict_set k (Leaf v) kvs)) TECH"
  by (simp add: set_info_def cfg_get_def dict_get_dict_set dict_set_twice)

text \<open>
  The claim C8 read as stated, refuted: a provider exception other than
  \<^verbatim>\<open>InvalidGitRepositoryError\<close> (here the \<^verbatim>\<open>ValueError\<close> of a repository without
  commits) is not caught and leaves the annotator.
\<close>

theorem annotate_provider_error_counterexample:
  "annotate True (GitError ''ValueError'') InvalidGitRepositoryError [] =
     ([(''info'', Node [(''version'', Leaf (SStr ''2.4.9''))])], Some (ProviderError ''ValueError''))"
  by (simp add: annotate_def set_info_def cfg_get_def dict_get_def version_def)

text \<open>
  C8, amended. The version field is always set to the library version. When the
  provider cannot be imported, or reports for the library's directory that it is not
  a repository, no revision is recorded and nothing is raised; when only the working
  directory is not a repository, the library's revision is recorded, the working
  directory's is omitted and nothing is raised. Any other exception of the provider
  propagates.
\<close>

theorem annotate_provenance:
  "lookup_path (Node (fst (annotate git_importable repo_hash cwd_hash TECH))) [''info'', ''version'']
     = Some (Leaf (SStr version))
   \<and> (\<not> git_importable \<or> repo_hash = InvalidGitRepositoryError \<longrightarrow>
        annotate git_importable repo_hash cwd_hash TECH =
          (dict_set ''info'' (Node [(''version'', Leaf (SStr version))]) TECH, None))
   \<and> (git_importable \<and> repo_hash = Hexsha h \<and> cwd_hash = InvalidGitRepositoryError \<longrightarrow>
        annotate git_importable repo_hash cwd_hash TECH =
          (dict_set ''info''
             (Node [(''version'', Leaf (SStr version)), (''git_hash'', Leaf (SStr h))]) TECH, None))
   \<and> (git_importable \<and> repo_hash = Hexsha h \<and> cwd_hash = Hexsha h' \<longrightarrow>
        annotate git_importable repo_hash cwd_hash TECH =
          (dict_set ''git_hash_cwd'' (Leaf (SStr h'))
             (dict_set ''info''
                (Node [(''version'', Leaf (SStr version)), (''git_hash'', Leaf (SStr h))]) TECH),
           None))
   \<and> (git_importable \<and> (repo_hash = GitError e \<or> repo_hash = Hexsha h \<and> cwd_hash = GitError e) \<longrightarrow>
        snd (annotate git_importable repo_hash cwd_hash TECH) = Some (ProviderError e))"
proof -
  have v: "lookup_path (Node (fst (annotate git_importable repo_hash cwd_hash TECH)))
             [''info'', ''version''] = Some (Leaf (SStr version))"
    by (cases repo_hash; cases cwd_hash)
       (simp_all add: annotate_def Let_def set_info_fresh map_of_dict_set)
  show ?thesis
    apply (intro conjI impI)
    subgoal by (rule v)
    subgoal by (cases repo_hash) (auto simp: annotate_def Let_def set_info_fresh)
    subgoal by (simp add: annotate_def Let_def set_info_fresh)
    subgoal by (simp add: annotate_def Let_def set_info_fresh)
    subgoal by (auto simp: annotate_def Let_def set_info_fresh)
    done
qed

theorem annotate_provenance_witness:
  "annotate False InvalidGitRepositoryError InvalidGitRepositoryError [(''tech'', Node [])] =
     ([(''tech'', Node []), (''info'', Node [(''version'', Leaf (SStr ''2.4.9''))])], None)
   \<and> snd (annotate True (Hexsha ''abc'') (GitError ''NoSuchPathError'') [(''tech'', Node [])])
       = Some (ProviderError ''NoSuchPathError'')"
  using annotate_provenance [of False InvalidGitRepositoryError InvalidGitRepositoryError
      "[(''tech'', Node [])]" "''abc''" "''abc''" "''NoSuchPathError''"]
    annotate_provenance [of True "Hexsha ''abc''" "GitError ''NoSuchPathError''"
      "[(''tech'', Node [])]" "''abc''" "''abc''" "''NoSuchPathError''"]
  by (simp add: version_def)




text \<open>
  C10. The entry \<^verbatim>\<open>gdslib\<close> of the path table is \<^verbatim>\<open>repo_path / "gdslib"\<close> when the
  resolved configuration has no key \<^verbatim>\<open>gdslib\<close> and also whenever the configured value
  is false in a condition: null, the empty string, \<^verbatim>\<open>false\<close>, zero or an empty
  mapping. The entries \<^verbatim>\<open>sp\<close> and \<^verbatim>\<open>gds\<close> lie below that default.
\<close>

theorem gdslib_falls_back_when_falsy:
  assumes "dict_get TECH ''gdslib'' \<in>
             {None, Some (Leaf SNone), Some (Leaf (SStr '''')), Some (Leaf (SBool False)),
              Some (Leaf (SInt 0)), Some (Leaf (SFloat 0)), Some (Node [])}"
  shows "\<exists>C. CONFIG_gdslib TECH repo_path dirpath_test CONFIG = Inr C
           \<and> dict_get C ''gdslib'' = Some (CPath (path_div repo_path ''gdslib''))
           \<and> dict_get C ''sp'' = Some (CPath (path_div (path_div repo_path ''gdslib'') ''sp''))
           \<and> dict_get C ''gds'' = Some (CPath (path_div (path_div repo_path ''gdslib'') ''gds''))"
proof -
  from assms have "\<not> cfg_truthy (cfg_get TECH ''gdslib'')"
    by (auto simp: cfg_get_def)
  then show ?thesis
    by (simp add: CONFIG_gdslib_def Let_def dict_get_dict_set)
qed

theorem gdslib_falls_back_when_falsy_witness:
  "dict_get [(''gdslib'', Leaf (SStr ''''))] ''gdslib'' \<in>
     {None, Some (Leaf SNone), Some (Leaf (SStr '''')), Some (Leaf (SBool False)),
      Some (Leaf (SInt 0)), Some (Leaf (SFloat 0)), Some (Node [])}
   \<and> CONFIG_gdslib [(''gdslib'', Leaf (SStr ''''))] (Path [''r'']) (Path [''t'']) [] =
       Inr [(''custom_components'', CCfg (Leaf SNone)), (''gdslib'', CPath (Path [''r'', ''gdslib''])),
            (''sp'', CPath (Path [''r'', ''gdslib'', ''sp''])),
            (''gds'', CPath (Path [''r'', ''gdslib'', ''gds''])),
            (''gdslib_test'', CPath (Path [''t'']))]"
  using gdslib_falls_back_when_falsy [of "[(''gdslib'', Leaf (SStr ''''))]" "Path [''r'']"
      "Path [''t'']" "[]"]
  by (simp add: dict_get_def CONFIG_gdslib_def cfg_get_def Let_def)

subsection \<open>Precedence of the layers\<close>

lemma map_of_merge_items:
  "distinct (map fst ys) \<Longrightarrow>
   map_of (merge_items xs ys) k =
     (case map_of ys k of
        None \<Rightarrow> map_of xs k
      | Some y \<Rightarrow> Some (case map_of xs k of None \<Rightarrow> y | Some x \<Rightarrow> merge_cfg x y))"
proof (induction ys arbitrary: xs)
  case Nil
  then show ?case by simp
next
  case (Cons ky ys)
  obtain k' y' where ky: "ky = (k', y')" by (cases ky)
  from Cons.prems have fresh: "map_of ys k' = None" and d: "distinct (map fst ys)"
    by (simp_all add: ky map_of_eq_None_iff)
  show ?case
    using fresh by (simp add: ky Cons.IH [OF d] map_of_dict_set split: option.splits)
qed

lemma cut_by_lookup: "cut_by c p \<Longrightarrow> lookup_path c p = None"
  by (induction p arbitrary: c) (auto split: cfg.splits option.splits)

lemma merge_cfg_Leaf [simp]: "merge_cfg a (Leaf s) = Leaf s"
  by (cases a) simp_all

lemma lookup_path_merge:
  "wf_cfg b \<Longrightarrow>
   lookup_path (merge_cfg a b) p =
     (if cut_by b p then None
      else case lookup_path b p of
             None \<Rightarrow> lookup_path a p
           | Some vb \<Rightarrow> Some (case lookup_path a p of None \<Rightarrow> vb | Some va \<Rightarrow> merge_cfg va vb))"
proof (induction p arbitrary: a b)
  case Nil
  then show ?case by simp
next
  case (Cons k ks)
  show ?case
  proof (cases b)
    case (Leaf s)
    then show ?thesis by simp
  next
    case (Node ys)
    note b = Node
    from Cons.prems have dist: "distinct (map fst ys)"
      and wf: "\<And>y. map_of ys k = Some y \<Longrightarrow> wf_cfg y"
      by (auto simp: b dest!: map_of_SomeD)
    show ?thesis
    proof (cases a)
      case (Leaf sa)
      then show ?thesis
        by (auto simp: b cut_by_lookup split: option.splits)
    next
      case (Node xs)
      show ?thesis
      proof (cases "map_of ys k")
        case None
        then show ?thesis
          by (simp add: b Node map_of_merge_items [OF dist])
      next
        case (Some y)
        show ?thesis
        proof (cases "map_of xs k")
          case None
          then show ?thesis
            by (auto simp: b Node Some map_of_merge_items [OF dist] cut_by_lookup
                split: option.splits)
        next
          case (Some x)
          have m: "lookup_path (merge_cfg a b) (k # ks) = lookup_path (merge_cfg x y) ks"
            by (simp add: b Node Some \<open>map_of ys k = Some y\<close> map_of_merge_items [OF dist])
          have l: "lookup_path a (k # ks) = lookup_path x ks"
            "lookup_path b (k # ks) = lookup_path y ks" "cut_by b (k # ks) = cut_by y ks"
            by (simp_all add: b Node Some \<open>map_of ys k = Some y\<close>)
          show ?thesis
            unfolding m l by (rule Cons.IH [OF wf [OF \<open>map_of ys k = Some y\<close>]])
        qed
      qed
    qed
  qed
qed


lemma merge_layer_parses:
  "parses f \<Longrightarrow> merge_layer TECH f = Inr (merge_items TECH (layer_of f))"
  by (cases f)
     (auto simp: merge_layer_def parses_def layer_of_def readable_and_exists_def OmegaConf_load_def
       split: sum.splits)

lemma layer_of_skipped: "f \<in> {Absent, Unreadable} \<Longrightarrow> layer_of f = []"
  by (auto simp: layer_of_def)

lemma lookup_path_merge_scalar:
  assumes "wf_cfg b" and "lookup_path b p = Some (Leaf s)"
  shows "lookup_path (merge_cfg a b) p = Some (Leaf s)"
proof -
  from assms(2) have "\<not> cut_by b p"
    using cut_by_lookup by fastforce
  then show ?thesis
    by (simp add: lookup_path_merge [OF assms(1)] assms(2) split: option.splits)
qed

lemma lookup_path_merge_silent:
  assumes "wf_cfg b" and "lookup_path b p = None" and "\<not> cut_by b p"
  shows "lookup_path (merge_cfg a b) p = lookup_path a p"
  by (simp add: lookup_path_merge [OF assms(1)] assms(2,3))

text \<open>
  The claim C1 read as stated, refuted at three inputs. With the packaged default
  absent, loading raises instead of skipping the layer. With \<^verbatim>\<open>a.b\<close> defined by the
  default (1) and the machine file (2), and \<^verbatim>\<open>a: 5\<close> in the working directory, the
  highest layer that defines \<^verbatim>\<open>a.b\<close> gives 2, and the resolved configuration has no
  \<^verbatim>\<open>a.b\<close>. With \<^verbatim>\<open>a\<close> a mapping in the default and in the working directory, the
  resolved value of \<^verbatim>\<open>a\<close> is the merge of the two, not the working directory's value.
\<close>

theorem layered_precedence_counterexample:
  "load_TECH Absent Absent Absent = Inl FileNotFoundError
   \<and> lookup_path (Node [(''a'', Node [(''b'', Leaf (SInt 2))])]) [''a'', ''b''] = Some (Leaf (SInt 2))
   \<and> lookup_path (Node [(''a'', Leaf (SInt 5))]) [''a'', ''b''] = None
   \<and> load_TECH (Readable (Inr [(''a'', Node [(''b'', Leaf (SInt 1))])]))
        (Readable (Inr [(''a'', Node [(''b'', Leaf (SInt 2))])]))
        (Readable (Inr [(''a'', Leaf (SInt 5))])) = Inr [(''a'', Leaf (SInt 5))]
   \<and> lookup_path (Node [(''a'', Leaf (SInt 5))]) [''a'', ''b''] \<noteq> Some (Leaf (SInt 2))
   \<and> load_TECH (Readable (Inr [(''a'', Node [(''b'', Leaf (SInt 1))])])) Absent
        (Readable (Inr [(''a'', Node [(''c'', Leaf (SInt 2))])]))
       = Inr [(''a'', Node [(''b'', Leaf (SInt 1)), (''c'', Leaf (SInt 2))])]
   \<and> Node [(''b'', Leaf (SInt 1)), (''c'', Leaf (SInt 2))] \<noteq> Node [(''c'', Leaf (SInt 2))]"
  by (simp add: load_TECH_def merge_layer_def OmegaConf_load_def readable_and_exists_def)

text \<open>
  C1, amended. With the packaged default readable and the two optional files either
  absent, unreadable, or readable and well-formed, loading succeeds, and for every key
  path: a scalar that the working-directory layer gives the path is the resolved
  value; else, when the working-directory layer neither defines nor cuts the path, a
  scalar that the machine layer gives it is the resolved value; else, when neither
  optional layer defines or cuts the path, the resolved value is the default's. A
  layer whose file is absent or unreadable contributes nothing, so resolution falls
  back to the layers below it.
\<close>

theorem layered_precedence:
  assumes "default_config = Readable (Inr D)"
    and "parses home_config" and "parses cwd_config"
    and "wf_cfg (Node (layer_of home_config))" and "wf_cfg (Node (layer_of cwd_config))"
  shows "\<exists>TECH. load_TECH default_config home_config cwd_config = Inr TECH
     \<and> (lookup_path (Node (layer_of cwd_config)) p = Some (Leaf s) \<longrightarrow>
          lookup_path (Node TECH) p = Some (Leaf s))
     \<and> (lookup_path (Node (layer_of cwd_config)) p = None \<and> \<not> cut_by (Node (layer_of cwd_config)) p
          \<and> lookup_path (Node (layer_of home_config)) p = Some (Leaf s) \<longrightarrow>
          lookup_path (Node TECH) p = Some (Leaf s))
     \<and> (lookup_path (Node (layer_of cwd_config)) p = None \<and> \<not> cut_by (Node (layer_of cwd_config)) p
          \<and> lookup_path (Node (layer_of home_config)) p = None
          \<and> \<not> cut_by (Node (layer_of home_config)) p \<longrightarrow>
          lookup_path (Node TECH) p = lookup_path (Node D) p)
     \<and> (cwd_config \<in> {Absent, Unreadable} \<longrightarrow> TECH = merge_items D (layer_of home_config))
     \<and> (home_config \<in> {Absent, Unreadable} \<longrightarrow> TECH = merge_items D (layer_of cwd_config))"
proof -
  let ?H = "layer_of home_config" and ?C = "layer_of cwd_config"
  let ?T = "merge_items (merge_items D ?H) ?C"
  have load: "load_TECH default_config home_config cwd_config = Inr ?T"
    by (simp add: load_TECH_def assms(1) OmegaConf_load_def merge_layer_parses [OF assms(2)]
        merge_layer_parses [OF assms(3)])
  have node: "Node ?T = merge_cfg (merge_cfg (Node D) (Node ?H)) (Node ?C)"
    by simp
  have c1: "lookup_path (Node ?T) p = Some (Leaf s)"
    if "lookup_path (Node ?C) p = Some (Leaf s)"
    unfolding node by (rule lookup_path_merge_scalar [OF assms(5) that])
  have c2: "lookup_path (Node ?T) p = Some (Leaf s)"
    if "lookup_path (Node ?C) p = None" "\<not> cut_by (Node ?C) p"
      "lookup_path (Node ?H) p = Some (Leaf s)"
    unfolding node
    by (simp only: lookup_path_merge_silent [OF assms(5) that(1,2)]
        lookup_path_merge_scalar [OF assms(4) that(3)])
  have c3: "lookup_path (Node ?T) p = lookup_path (Node D) p"
    if "lookup_path (Node ?C) p = None" "\<not> cut_by (Node ?C) p"
      "lookup_path (Node ?H) p = None" "\<not> cut_by (Node ?H) p"
    unfolding node
    by (simp only: lookup_path_merge_silent [OF assms(5) that(1,2)]
        lookup_path_merge_silent [OF assms(4) that(3,4)])
  have s1: "?T = merge_items D ?H" if "cwd_config \<in> {Absent, Unreadable}"
    using layer_of_skipped [OF that] by simp
  have s2: "?T = merge_items D ?C" if "home_config \<in> {Absent, Unreadable}"
    using layer_of_skipped [OF that] by simp
  show ?thesis
  proof (intro exI conjI impI)
    show "load_TECH default_config home_config cwd_config = Inr ?T"
      by (rule load)
  qed (use c1 c2 c3 s1 s2 in blast)+
qed

theorem layered_precedence_witness:
  "parses Absent
   \<and> parses (Readable (Inr [(''tech'', Node [(''grid_unit'', Leaf (SInt 5))])]))
   \<and> wf_cfg (Node (layer_of Absent))
   \<and> wf_cfg (Node (layer_of (Readable (Inr [(''tech'', Node [(''grid_unit'', Leaf (SInt 5))])]))))
   \<and> lookup_path (Node (layer_of (Readable (Inr [(''tech'', Node [(''grid_unit'', Leaf (SInt 5))])]))))
        [''tech'', ''grid_unit''] = Some (Leaf (SInt 5))
   \<and> (\<exists>TECH. load_TECH
          (Readable (Inr [(''tech'', Node [(''grid_unit'', Leaf (SInt 1)), (''res'', Leaf (SInt 2))])]))
          Absent
          (Readable (Inr [(''tech'', Node [(''grid_unit'', Leaf (SInt 5))])])) = Inr TECH
        \<and> lookup_path (Node TECH) [''tech'', ''grid_unit''] = Some (Leaf (SInt 5)))"
  using layered_precedence
    [of "Readable (Inr [(''tech'', Node [(''grid_unit'', Leaf (SInt 1)), (''res'', Leaf (SInt 2))])])"
        "[(''tech'', Node [(''grid_unit'', Leaf (SInt 1)), (''res'', Leaf (SInt 2))])]"
        Absent
        "Readable (Inr [(''tech'', Node [(''grid_unit'', Leaf (SInt 5))])])"
        "[''tech'', ''grid_unit'']" "SInt 5"]
  by (simp add: parses_def layer_of_def)

subsection \<open>Writing a configuration\<close>

lemma collect_all_Inr:
  "(\<And>x. x \<in> set xs \<Longrightarrow> f x = Inr (g x)) \<Longrightarrow> collect (map f xs) = Inr (map g xs)"
  by (induction xs) simp_all

lemma collect_some_Inl:
  "\<exists>x \<in> set xs. \<exists>e. f x = Inl e \<Longrightarrow> \<exists>x \<in> set xs. \<exists>e. f x = Inl e \<and> collect (map f xs) = Inl e"
proof (induction xs)
  case Nil
  then show ?case by simp
next
  case (Cons x xs)
  show ?case
  proof (cases "f x")
    case (Inl e)
    then show ?thesis by auto
  next
    case (Inr a)
    with Cons.prems have "\<exists>x \<in> set xs. \<exists>e. f x = Inl e" by auto
    from Cons.IH [OF this] show ?thesis by (auto simp: Inr)
  qed
qed

lemma dumps_as_seq:
  fixes f :: "'a \<Rightarrow> py_error + 'b" and u :: "'a \<Rightarrow> pyval list"
  assumes "\<And>x. x \<in> set xs \<Longrightarrow>
             (u x = [] \<longrightarrow> f x = Inr (g x))
           \<and> (u x \<noteq> [] \<longrightarrow> (\<exists>z \<in> set (u x). f x = Inl (E z)))"
  shows "(concat (map u xs) = [] \<longrightarrow> collect (map f xs) = Inr (map g xs))
       \<and> (concat (map u xs) \<noteq> [] \<longrightarrow>
            (\<exists>z \<in> set (concat (map u xs)). collect (map f xs) = Inl (E z)))"
proof (intro conjI impI)
  assume "concat (map u xs) = []"
  then have "\<And>x. x \<in> set xs \<Longrightarrow> f x = Inr (g x)"
    using assms by auto
  then show "collect (map f xs) = Inr (map g xs)"
    by (rule collect_all_Inr)
next
  assume "concat (map u xs) \<noteq> []"
  then obtain x where "x \<in> set xs" "u x \<noteq> []"
    by auto
  with assms have "\<exists>x \<in> set xs. \<exists>e. f x = Inl e"
    by blast
  from collect_some_Inl [OF this] obtain x' e
    where x': "x' \<in> set xs" "f x' = Inl e" "collect (map f xs) = Inl e"
    by blast
  from assms [OF x'(1)] x'(2) obtain z where "z \<in> set (u x')" "e = E z"
    by (cases "u x' = []") auto
  with x' show "\<exists>z \<in> set (concat (map u xs)). collect (map f xs) = Inl (E z)"
    by auto
qed

lemma dumps_as_all: "dumps_as format type_name v"
proof (induction v)
  case (VList xs)
  have "(concat (map unsupported xs) = [] \<longrightarrow>
           collect (map (json_dump (complex_encoder format type_name)) xs)
             = Inr (map paths_as_strings xs))
      \<and> (concat (map unsupported xs) \<noteq> [] \<longrightarrow>
           (\<exists>z \<in> set (concat (map unsupported xs)).
              collect (map (json_dump (complex_encoder format type_name)) xs)
                = Inl (not_serializable format type_name z)))"
    by (rule dumps_as_seq) (use VList.IH in \<open>simp add: dumps_as_def write_config_def\<close>)
  then show ?case
    unfolding dumps_as_def write_config_def
    by (cases "concat (map unsupported xs) = []")
       (auto simp del: set_concat concat_eq_Nil_conv)
next
  case (VDict kvs)
  let ?f = "\<lambda>kv. case json_dump (complex_encoder format type_name) (snd kv) of
                    Inl e \<Rightarrow> Inl e | Inr j \<Rightarrow> Inr (fst kv, j)"
  let ?g = "\<lambda>kv. (fst kv, paths_as_strings (snd kv))"
  let ?u = "\<lambda>kv. unsupported (snd kv)"
  have each: "(?u kv = [] \<longrightarrow> ?f kv = Inr (?g kv))
            \<and> (?u kv \<noteq> [] \<longrightarrow> (\<exists>z \<in> set (?u kv). ?f kv = Inl (not_serializable format type_name z)))"
    if "kv \<in> set (sort_key fst kvs)" for kv
  proof -
    from that have "kv \<in> set kvs" by simp
    moreover have "snd kv \<in> Basic_BNFs.snds kv"
      by (cases kv) simp
    ultimately have "dumps_as format type_name (snd kv)"
      by (rule VDict.IH)
    then show ?thesis
      by (auto simp: dumps_as_def write_config_def)
  qed
  have seq: "(concat (map ?u (sort_key fst kvs)) = [] \<longrightarrow>
               collect (map ?f (sort_key fst kvs)) = Inr (map ?g (sort_key fst kvs)))
           \<and> (concat (map ?u (sort_key fst kvs)) \<noteq> [] \<longrightarrow>
               (\<exists>z \<in> set (concat (map ?u (sort_key fst kvs))).
                  collect (map ?f (sort_key fst kvs)) = Inl (not_serializable format type_name z)))"
    by (rule dumps_as_seq) (rule each)
  have sets: "set (concat (map ?u (sort_key fst kvs))) = set (concat (map ?u kvs))"
    by simp
  then have empty: "concat (map ?u (sort_key fst kvs)) = [] \<longleftrightarrow> concat (map ?u kvs) = []"
    by (metis set_empty)
  show ?case
  proof (cases "concat (map ?u kvs) = []")
    case True
    with seq empty show ?thesis
      unfolding dumps_as_def write_config_def by simp
  next
    case False
    with seq empty obtain z where "z \<in> set (concat (map ?u (sort_key fst kvs)))"
      "collect (map ?f (sort_key fst kvs)) = Inl (not_serializable format type_name z)"
      by blast
    with sets False show ?thesis
      unfolding dumps_as_def write_config_def
      by (auto simp del: set_concat concat_eq_Nil_conv)
  qed
qed (simp_all add: dumps_as_def write_config_def complex_encoder_def not_serializable_def)


text \<open>
  C7. For every structure handed to \<^verbatim>\<open>write_config\<close>: when all its objects are
  native or paths, the write succeeds and the document is the structure with every
  path encoded as its string form, nothing dropped; when it holds an object of
  another type, the write fails with the exception raised by \<^verbatim>\<open>complex_encoder\<close>
  (Python's \<^verbatim>\<open>TypeError\<close>), whose message names such an object of the structure and
  its type.
\<close>

theorem write_config_paths_and_errors:
  "(unsupported config = [] \<longrightarrow>
      write_config format type_name config = Inr (paths_as_strings config))
   \<and> (unsupported config \<noteq> [] \<longrightarrow>
        (\<exists>z \<in> set (unsupported config).
           write_config format type_name config =
             Inl (TypeError (''Object '' @ format z @ '' of type '' @ type_name z
                             @ '' is not serializable''))))"
  using dumps_as_all [of format type_name config]
  by (simp add: dumps_as_def not_serializable_def)

lemma sort_key_two_items:
  "sort_key fst [(''out'', VPath (Path [''tmp'', ''x''])), (''n'', VList [VInt 1])]
     = [(''n'', VList [VInt 1]), (''out'', VPath (Path [''tmp'', ''x'']))]"
  by (simp add: less_eq_char_def less_char_def list_le_def)

theorem write_config_paths_and_errors_witness:
  "unsupported (VDict [(''out'', VPath (Path [''tmp'', ''x''])), (''n'', VList [VInt 1])]) = []
   \<and> write_config (\<lambda>z. ''{1}'') (\<lambda>z. ''set'')
        (VDict [(''out'', VPath (Path [''tmp'', ''x''])), (''n'', VList [VInt 1])])
       = Inr (VDict [(''n'', VList [VInt 1]), (''out'', VStr ''/tmp/x'')])
   \<and> unsupported (VList [VInt 1, VObj ''{1}'']) \<noteq> []
   \<and> write_config (\<lambda>z. ''{1}'') (\<lambda>z. ''set'') (VList [VInt 1, VObj ''{1}''])
       = Inl (TypeError ''Object {1} of type set is not serializable'')"
  using write_config_paths_and_errors
      [of "VDict [(''out'', VPath (Path [''tmp'', ''x''])), (''n'', VList [VInt 1])]"
          "\<lambda>z. ''{1}''" "\<lambda>z. ''set''"]
    write_config_paths_and_errors [of "VList [VInt 1, VObj ''{1}'']" "\<lambda>z. ''{1}''" "\<lambda>z. ''set''"]
  by (simp add: sort_key_two_items)

end
